theory Spec2Isabelle
  imports Complex_Main
begin

text \<open>
  PlayPDF turns a PDF score into a list of notes through a transcription service and plays
  it in the browser. This theory embeds the playback part of its \<^verbatim>\<open>App\<close> component
  (\<^verbatim>\<open>processFile\<close>, \<^verbatim>\<open>startPlayback\<close>, \<^verbatim>\<open>stopPlayback\<close>, the timer callbacks they create and the
  play button) together with the part of the browser they run on: the timer list, the audio
  clock, the instrument loader and the sound renderer.
\<close>

section \<open>JavaScript numbers\<close>

text \<open>
  The program computes with JavaScript numbers. They are modelled as exact rationals
  extended with the special values the program can meet: \<open>NaN\<close>, the two infinities
  and the two zeros (\<open>JInf True\<close> is \<open>-Infinity\<close>, \<open>JZero True\<close> is \<open>-0\<close>).
  Rounding, overflow and underflow of doubles are not modelled: a finite result is the
  exact rational. Finite non-zero values are \<open>JFin r\<close>, and \<open>num\<close> builds a number from a
  rational. No operation returns \<open>JFin 0\<close>, and all of them read it as \<open>+0\<close>.
\<close>

datatype jsnum = JNaN | JInf bool | JZero bool | JFin rat

definition num :: "rat \<Rightarrow> jsnum" where
  "num r = (if r = 0 then JZero False else JFin r)"

fun negative :: "jsnum \<Rightarrow> bool" where
  "negative JNaN = False"
| "negative (JInf s) = s"
| "negative (JZero s) = s"
| "negative (JFin r) = (r < 0)"

text \<open>The value of a zero or finite number.\<close>

fun finval :: "jsnum \<Rightarrow> rat" where
  "finval (JFin r) = r"
| "finval _ = 0"

text \<open>\<^verbatim>\<open>a * b\<close>\<close>

fun jmul :: "jsnum \<Rightarrow> jsnum \<Rightarrow> jsnum" where
  "jmul JNaN _ = JNaN"
| "jmul _ JNaN = JNaN"
| "jmul (JInf s) b = (if finval b = 0 \<and> b \<noteq> JInf True \<and> b \<noteq> JInf False then JNaN
                      else JInf (s \<noteq> negative b))"
| "jmul a (JInf t) = (if finval a = 0 then JNaN else JInf (negative a \<noteq> t))"
| "jmul (JZero s) b = JZero (s \<noteq> negative b)"
| "jmul a (JZero t) = JZero (negative a \<noteq> t)"
| "jmul (JFin a) (JFin b) = (if a * b = 0 then JZero (negative (JFin a) \<noteq> negative (JFin b))
                             else JFin (a * b))"

text \<open>\<^verbatim>\<open>a / b\<close>\<close>

fun jdiv :: "jsnum \<Rightarrow> jsnum \<Rightarrow> jsnum" where
  "jdiv JNaN _ = JNaN"
| "jdiv _ JNaN = JNaN"
| "jdiv (JInf s) (JInf t) = JNaN"
| "jdiv (JInf s) b = JInf (s \<noteq> negative b)"
| "jdiv a (JInf t) = JZero (negative a \<noteq> t)"
| "jdiv (JZero s) b = (if finval b = 0 then JNaN else JZero (s \<noteq> negative b))"
| "jdiv (JFin a) b =
     (if finval b = 0 then (if a = 0 then JNaN else JInf (negative (JFin a) \<noteq> negative b))
      else if a = 0 then JZero (negative b)
      else JFin (a / finval b))"

text \<open>\<^verbatim>\<open>a + b\<close>\<close>

fun jadd :: "jsnum \<Rightarrow> jsnum \<Rightarrow> jsnum" where
  "jadd JNaN _ = JNaN"
| "jadd _ JNaN = JNaN"
| "jadd (JInf s) (JInf t) = (if s = t then JInf s else JNaN)"
| "jadd (JInf s) _ = JInf s"
| "jadd _ (JInf t) = JInf t"
| "jadd (JZero s) (JZero t) = JZero (s \<and> t)"
| "jadd a b = num (finval a + finval b)"

text \<open>Unary minus, and \<^verbatim>\<open>a - b\<close>, which is \<open>a + (-b)\<close> also on the special values.\<close>

fun jneg :: "jsnum \<Rightarrow> jsnum" where
  "jneg JNaN = JNaN"
| "jneg (JInf s) = JInf (\<not> s)"
| "jneg (JZero s) = JZero (\<not> s)"
| "jneg (JFin r) = (if r = 0 then JZero True else JFin (- r))"

definition jsub :: "jsnum \<Rightarrow> jsnum \<Rightarrow> jsnum" where
  "jsub a b = jadd a (jneg b)"

text \<open>\<^verbatim>\<open>a > b\<close>: false as soon as one side is \<open>NaN\<close>; the two zeros are equal.\<close>

fun jgt :: "jsnum \<Rightarrow> jsnum \<Rightarrow> bool" where
  "jgt JNaN _ = False"
| "jgt _ JNaN = False"
| "jgt (JInf s) (JInf t) = (\<not> s \<and> t)"
| "jgt (JInf s) _ = (\<not> s)"
| "jgt _ (JInf t) = t"
| "jgt a b = (finval a > finval b)"

text \<open>Truthiness of a number: \<open>NaN\<close> and the zeros are falsy.\<close>

fun truthy :: "jsnum \<Rightarrow> bool" where
  "truthy JNaN = False"
| "truthy (JZero _) = False"
| "truthy (JInf _) = True"
| "truthy (JFin r) = (r \<noteq> 0)"

text \<open>\<^verbatim>\<open>a || b\<close> on numbers.\<close>

definition jor :: "jsnum \<Rightarrow> jsnum \<Rightarrow> jsnum" where
  "jor a b = (if truthy a then a else b)"

section \<open>Data model (types.ts)\<close>

record Note =
  pitch :: string
  time :: jsnum
  duration :: jsnum
  velocity :: "jsnum option"

record Score =
  title :: string
  bpm :: jsnum
  "notes" :: "Note list"

section \<open>The component's state and its environment\<close>

text \<open>
  A pending entry of the browser's timer list. A \<open>Timeout\<close> is the closure built by
  \<^verbatim>\<open>setTimeout\<close> in \<^verbatim>\<open>startPlayback\<close>: the delay in milliseconds that was passed, the clock
  reading when it was armed, and the captured \<^verbatim>\<open>note\<close>, \<^verbatim>\<open>beatDuration\<close> and \<^verbatim>\<open>player\<close>.
  An \<open>Interval\<close> is the progress tracker built by \<^verbatim>\<open>setInterval(\<dots>, 50)\<close>: the captured
  \<^verbatim>\<open>score\<close> and \<^verbatim>\<open>beatDuration\<close>.
\<close>

datatype timer =
    Timeout (delay: jsnum) (armedAt: rat) (tnote: Note) (tbeat: jsnum) (tplayer: nat)
  | Interval (iscore: Score) (ibeat: jsnum)

text \<open>
  The calls received by the sound renderer: \<^verbatim>\<open>player.play(pitch, when, {duration})\<close> and
  \<^verbatim>\<open>player.stop()\<close>, each with the player it was called on.
\<close>

datatype render_call = Play nat string jsnum jsnum | StopAll nat

datatype js_error = TypeError | ServiceError

text \<open>
  The React state and the refs of \<^verbatim>\<open>App\<close> that playback reads or writes, followed by the
  environment: the audio clock in seconds (\<^verbatim>\<open>audioContext.currentTime\<close>; the timers run on the
  same clock), the timer list with its id counter, the calls of \<^verbatim>\<open>startPlayback\<close> that are
  suspended at \<^verbatim>\<open>await Soundfont.instrument(\<dots>)\<close> (each with the player it will receive
  and the \<^verbatim>\<open>score\<close> and \<^verbatim>\<open>tempo\<close> of the render it was called from), the renderer's call log
  and the exceptions that escaped a timer callback.
\<close>

record app =
  "file" :: "string option"
  pdfImages :: "string list"
  score :: "Score option"
  tempo :: jsnum
  isPlaying :: bool
  currentTime :: jsnum
  error :: "string option"
  audioContextRef :: bool
  playerRef :: "nat option"
  playbackTimeoutRef :: "nat list"
  startTimeRef :: jsnum
  isPlayingRef :: bool
  clock :: rat
  timers :: "(nat \<times> timer) list"
  nextTimer :: nat
  loading :: "(nat \<times> Score \<times> jsnum) list"
  nextPlayer :: nat
  rendered :: "render_call list"
  uncaught :: "js_error list"

definition initial :: app where
  "initial = \<lparr> file = None, pdfImages = [], score = None, tempo = num 120,
     isPlaying = False, currentTime = num 0, error = None, audioContextRef = False,
     playerRef = None, playbackTimeoutRef = [], startTimeRef = num 0, isPlayingRef = False,
     clock = 0, timers = [], nextTimer = 0, loading = [], nextPlayer = 0, rendered = [],
     uncaught = [] \<rparr>"

section \<open>The operations of App\<close>

text \<open>\<^verbatim>\<open>clearTimeout(id)\<close> and \<^verbatim>\<open>clearInterval(id)\<close>: both remove the entry from the one list.\<close>

definition clearTimer :: "nat \<Rightarrow> app \<Rightarrow> app" where
  "clearTimer i s = s\<lparr>timers := filter (\<lambda>e. fst e \<noteq> i) (timers s)\<rparr>"

text \<open>\<^verbatim>\<open>stopPlayback\<close>\<close>

definition stopPlayback :: "app \<Rightarrow> app" where
  "stopPlayback s =
     (let s1 = s\<lparr>isPlayingRef := False, isPlaying := False\<rparr>;
          s2 = fold clearTimer (playbackTimeoutRef s1) s1;
          s3 = s2\<lparr>playbackTimeoutRef := []\<rparr>;
          s4 = (case playerRef s3 of
                  None \<Rightarrow> s3
                | Some p \<Rightarrow> s3\<lparr>rendered := rendered s3 @ [StopAll p]\<rparr>)
      in s4\<lparr>currentTime := num 0\<rparr>)"

text \<open>
  \<^verbatim>\<open>handleFileChange\<close>, given the selected file (its name and MIME type, if any) and the
  outcome of \<^verbatim>\<open>pdfToImages\<close>; the wait for the page images is not split from the rest.
\<close>

definition handleFileChange :: "(string \<times> string) option \<Rightarrow> js_error + string list \<Rightarrow> app \<Rightarrow> app" where
  "handleFileChange selectedFile outcome s =
     (case selectedFile of
        None \<Rightarrow> s\<lparr>error := Some ''Please upload a valid PDF file.''\<rparr>
      | Some (name, mime) \<Rightarrow>
          if mime = ''application/pdf'' then
            (let s1 = s\<lparr>file := Some name, score := None, pdfImages := [], error := None\<rparr> in
             case outcome of
               Inr images \<Rightarrow> s1\<lparr>pdfImages := images\<rparr>
             | Inl err \<Rightarrow> s1\<lparr>error := Some ''Failed to load PDF preview.''\<rparr>)
          else s\<lparr>error := Some ''Please upload a valid PDF file.''\<rparr>)"

text \<open>
  \<^verbatim>\<open>processFile\<close>, given the outcome of \<^verbatim>\<open>parseScoreFromImages\<close> (the score parsed from the
  service's JSON, or the error it threw). The progress bar of the analysis is left out.
\<close>

definition processFile :: "js_error + Score \<Rightarrow> app \<Rightarrow> app" where
  "processFile outcome s =
     (if file s = None \<or> pdfImages s = [] then s
      else let s1 = s\<lparr>error := None\<rparr> in
        case outcome of
          Inr parsedScore \<Rightarrow> s1\<lparr>score := Some parsedScore, tempo := jor (bpm parsedScore) (num 120)\<rparr>
        | Inl err \<Rightarrow> s1\<lparr>error := Some ''Failed to process PDF. Please try again.''\<rparr>)"

text \<open>\<^verbatim>\<open>const beatDuration = 60 / tempo\<close>\<close>

definition beatDuration :: "jsnum \<Rightarrow> jsnum" where
  "beatDuration tp = jdiv (num 60) tp"

text \<open>
  \<^verbatim>\<open>startPlayback\<close> up to its \<^verbatim>\<open>await\<close>: the call returns to the event loop there, with the
  rest of its body suspended until the instrument has loaded or failed to.
\<close>

definition startPlayback :: "app \<Rightarrow> app" where
  "startPlayback s =
     (case score s of
        None \<Rightarrow> s
      | Some sc \<Rightarrow>
          s\<lparr>audioContextRef := True, isPlaying := True, isPlayingRef := True,
            startTimeRef := num (clock s),
            loading := loading s @ [(nextPlayer s, sc, tempo s)],
            nextPlayer := Suc (nextPlayer s)\<rparr>)"

text \<open>
  The entry made by \<^verbatim>\<open>setTimeout(() => {\<dots>}, note.time * beatDuration * 1000)\<close> when the
  clock reads \<open>now\<close>.
\<close>

definition noteTrigger :: "jsnum \<Rightarrow> nat \<Rightarrow> rat \<Rightarrow> Note \<Rightarrow> timer" where
  "noteTrigger bd player now note =
     Timeout (jmul (jmul (time note) bd) (num 1000)) now note bd player"

text \<open>One round of \<^verbatim>\<open>score.notes.forEach\<close>: arm the note's timeout and push its id.\<close>

definition scheduleNote :: "jsnum \<Rightarrow> nat \<Rightarrow> Note \<Rightarrow> app \<Rightarrow> app" where
  "scheduleNote bd player note s =
     s\<lparr>timers := timers s @ [(nextTimer s, noteTrigger bd player (clock s) note)],
       nextTimer := Suc (nextTimer s),
       playbackTimeoutRef := playbackTimeoutRef s @ [nextTimer s]\<rparr>"

text \<open>\<^verbatim>\<open>startPlayback\<close> after its \<^verbatim>\<open>await\<close>, when the instrument has loaded.\<close>

definition resumePlayback :: "nat \<Rightarrow> Score \<Rightarrow> jsnum \<Rightarrow> app \<Rightarrow> app" where
  "resumePlayback player sc tp s =
     (let s1 = s\<lparr>playerRef := Some player\<rparr>;
          bd = beatDuration tp;
          s2 = fold (scheduleNote bd player) (notes sc) s1
      in s2\<lparr>timers := timers s2 @ [(nextTimer s2, Interval sc bd)],
            nextTimer := Suc (nextTimer s2)\<rparr>)"

definition instrumentLoaded :: "nat \<Rightarrow> app \<Rightarrow> app" where
  "instrumentLoaded p s =
     (case map_of (loading s) p of
        None \<Rightarrow> s
      | Some (sc, tp) \<Rightarrow>
          resumePlayback p sc tp (s\<lparr>loading := filter (\<lambda>e. fst e \<noteq> p) (loading s)\<rparr>))"

text \<open>\<^verbatim>\<open>startPlayback\<close> after its \<^verbatim>\<open>await\<close>, when the load was rejected: the \<^verbatim>\<open>catch\<close> block.\<close>

definition instrumentFailed :: "nat \<Rightarrow> app \<Rightarrow> app" where
  "instrumentFailed p s =
     (case map_of (loading s) p of
        None \<Rightarrow> s
      | Some (sc, tp) \<Rightarrow> stopPlayback (s\<lparr>loading := filter (\<lambda>e. fst e \<noteq> p) (loading s)\<rparr>))"

text \<open>The callback of a note's timeout.\<close>

definition trigger :: "Note \<Rightarrow> jsnum \<Rightarrow> nat \<Rightarrow> app \<Rightarrow> app" where
  "trigger note bd player s =
     (if \<not> isPlayingRef s then s
      else s\<lparr>rendered := rendered s @
                [Play player (pitch note) (num (clock s)) (jmul (duration note) bd)]\<rparr>)"

text \<open>
  The callback of the progress interval. Reading \<^verbatim>\<open>lastNote.time\<close> when the list of notes is
  empty (\<^verbatim>\<open>lastNote\<close> is \<^verbatim>\<open>undefined\<close>) throws a \<^verbatim>\<open>TypeError\<close> out of the callback.
\<close>

definition progressTick :: "nat \<Rightarrow> Score \<Rightarrow> jsnum \<Rightarrow> app \<Rightarrow> app" where
  "progressTick progressInterval sc bd s =
     (if \<not> isPlayingRef s then clearTimer progressInterval s
      else let elapsed = jdiv (jsub (num (clock s)) (startTimeRef s)) bd;
               s1 = s\<lparr>currentTime := elapsed\<rparr>
           in case notes sc of
                [] \<Rightarrow> s1\<lparr>uncaught := uncaught s1 @ [TypeError]\<rparr>
              | _ # _ \<Rightarrow>
                  (let lastNote = last (notes sc) in
                   if jgt elapsed (jadd (jadd (time lastNote) (duration lastNote)) (num 1))
                   then clearTimer progressInterval (stopPlayback s1)
                   else s1))"

text \<open>The timer list runs an entry: a timeout leaves the list first, an interval stays.\<close>

definition fire :: "nat \<Rightarrow> app \<Rightarrow> app" where
  "fire i s =
     (case map_of (timers s) i of
        None \<Rightarrow> s
      | Some (Timeout d a note bd player) \<Rightarrow> trigger note bd player (clearTimer i s)
      | Some (Interval sc bd) \<Rightarrow> progressTick i sc bd s)"

text \<open>The play button: \<^verbatim>\<open>onClick={isPlaying ? stopPlayback : startPlayback}\<close>.\<close>

definition playButton :: "app \<Rightarrow> app" where
  "playButton s = (if isPlaying s then stopPlayback s else startPlayback s)"

section \<open>The event loop\<close>

text \<open>
  Everything that can happen to the component, one event at a time: a file is chosen,
  the outcome of a transcription arrives, the tempo slider moves, the play button is clicked, the two
  functions are called directly, an instrument load resolves or is rejected, a timer
  entry fires, the clock advances by some milliseconds. The loop does not say when a
  timer fires: every order and every instant is a run.
\<close>

datatype event =
    FileChosen "(string \<times> string) option" "js_error + string list"
  | Transcribed "js_error + Score"
  | TempoSlider jsnum
  | PlayButton
  | Start
  | Stop
  | Loaded nat
  | LoadFailed nat
  | Fire nat
  | Advance nat

fun step :: "app \<Rightarrow> event \<Rightarrow> app" where
  "step s (FileChosen selectedFile outcome) = handleFileChange selectedFile outcome s"
| "step s (Transcribed outcome) = processFile outcome s"
| "step s (TempoSlider v) = s\<lparr>tempo := v\<rparr>"
| "step s PlayButton = playButton s"
| "step s Start = startPlayback s"
| "step s Stop = stopPlayback s"
| "step s (Loaded p) = instrumentLoaded p s"
| "step s (LoadFailed p) = instrumentFailed p s"
| "step s (Fire i) = fire i s"
| "step s (Advance ms) = s\<lparr>clock := clock s + of_nat ms / 1000\<rparr>"

fun run :: "app \<Rightarrow> event list \<Rightarrow> app" where
  "run s [] = s"
| "run s (e # es) = run (step s e) es"

section \<open>Notions of the specification\<close>



text \<open>
  The end beat as the specification defines it: the maximum over all notes of start beat
  plus duration. The program reads the last note of the list instead.
\<close>

definition jmax :: "jsnum \<Rightarrow> jsnum \<Rightarrow> jsnum" where
  "jmax a b = (if jgt b a then b else a)"

definition endBeat_spec :: "Note list \<Rightarrow> jsnum" where
  "endBeat_spec ns = fold (\<lambda>n m. jmax m (jadd (time n) (duration n))) ns (JInf True)"

text \<open>
  The instant, on the clock, at which a timeout armed with a finite delay that is not
  negative becomes due: the instant it was armed plus its delay.
\<close>

definition dispatchInstant :: "timer \<Rightarrow> jsnum" where
  "dispatchInstant t = jadd (num (armedAt t)) (jdiv (delay t) (num 1000))"

text \<open>The events that neither read nor write the \<^verbatim>\<open>tempo\<close> state.\<close>

fun tempoFree :: "event \<Rightarrow> bool" where
  "tempoFree (FileChosen _ _) = True"
| "tempoFree (Transcribed _) = False"
| "tempoFree (TempoSlider _) = False"
| "tempoFree PlayButton = False"
| "tempoFree Start = False"
| "tempoFree Stop = True"
| "tempoFree (Loaded _) = True"
| "tempoFree (LoadFailed _) = True"
| "tempoFree (Fire _) = True"
| "tempoFree (Advance _) = True"

text \<open>The events that may call \<^verbatim>\<open>startPlayback\<close>, and the renderer calls that make a sound.\<close>

fun startsSession :: "event \<Rightarrow> bool" where
  "startsSession Start = True"
| "startsSession PlayButton = True"
| "startsSession _ = False"

fun isPlay :: "render_call \<Rightarrow> bool" where
  "isPlay (Play _ _ _ _) = True"
| "isPlay (StopAll _) = False"

section \<open>Scores and runs used as examples\<close>

definition mkNote :: "string \<Rightarrow> jsnum \<Rightarrow> jsnum \<Rightarrow> Note" where
  "mkNote p t d = \<lparr>pitch = p, time = t, duration = d, velocity = None\<rparr>"

text \<open>The specification's example: C4 and E4 on beat 0, G4 on beat 1, at 120 bpm.\<close>

definition chord :: Score where
  "chord = \<lparr>title = ''Chord'', bpm = num 120,
     notes = [mkNote ''C4'' (num 0) (num 1), mkNote ''E4'' (num 0) (num 1),
              mkNote ''G4'' (num 1) (num 1)]\<rparr>"


text \<open>A score without notes.\<close>

definition silence :: Score where
  "silence = \<lparr>title = ''Silence'', bpm = num 120, notes = []\<rparr>"

text \<open>A long first note that outlasts the last note of the list.\<close>

definition overlap :: Score where
  "overlap = \<lparr>title = ''Overlap'', bpm = num 60,
     notes = [mkNote ''C4'' (num 0) (num 10), mkNote ''E4'' (num 1) (num 1)]\<rparr>"



definition solo :: Score where
  "solo = \<lparr>title = ''Solo'', bpm = num 60, notes = [mkNote ''A4'' (num 0) (num 1)]\<rparr>"

text \<open>A PDF is chosen and its transcription arrives: the events before any playback.\<close>

definition opened :: "Score \<Rightarrow> event list" where
  "opened sc = [FileChosen (Some (''score.pdf'', ''application/pdf'')) (Inr [''page1'']),
                Transcribed (Inr sc)]"

section \<open>Structure of the operations\<close>

lemma fold_clearTimer:
  "fold clearTimer is s = s\<lparr>timers := filter (\<lambda>e. fst e \<notin> set is) (timers s)\<rparr>"
proof (induction "is" arbitrary: s)
  case Nil
  show ?case by simp
next
  case (Cons i "is")
  have "fold clearTimer (i # is) s = fold clearTimer is (clearTimer i s)"
    by simp
  also have "\<dots> = (clearTimer i s)\<lparr>timers := filter (\<lambda>e. fst e \<notin> set is) (timers (clearTimer i s))\<rparr>"
    by (rule Cons.IH)
  also have "\<dots> = s\<lparr>timers := filter (\<lambda>e. fst e \<notin> set (i # is)) (timers s)\<rparr>"
    by (simp add: clearTimer_def conj_commute)
  finally show ?case .
qed

lemma stopPlayback_eq:
  "stopPlayback s =
     s\<lparr>isPlayingRef := False, isPlaying := False,
       timers := filter (\<lambda>e. fst e \<notin> set (playbackTimeoutRef s)) (timers s),
       playbackTimeoutRef := [],
       rendered := (case playerRef s of None \<Rightarrow> rendered s | Some p \<Rightarrow> rendered s @ [StopAll p]),
       currentTime := num 0\<rparr>"
  by (simp add: stopPlayback_def fold_clearTimer Let_def split: option.splits)

lemma fold_scheduleNote:
  "fold (scheduleNote bd p) ns s =
     s\<lparr>timers := timers s @ map (\<lambda>(i, n). (i, noteTrigger bd p (clock s) n))
                                (enumerate (nextTimer s) ns),
       nextTimer := nextTimer s + length ns,
       playbackTimeoutRef := playbackTimeoutRef s @ map fst (enumerate (nextTimer s) ns)\<rparr>"
proof (induction ns arbitrary: s)
  case Nil
  show ?case by simp
next
  case (Cons n ns)
  let ?s = "scheduleNote bd p n s"
  have "fold (scheduleNote bd p) (n # ns) s = fold (scheduleNote bd p) ns ?s"
    by simp
  also have "\<dots> = ?s\<lparr>timers := timers ?s @ map (\<lambda>(i, n). (i, noteTrigger bd p (clock ?s) n))
                                (enumerate (nextTimer ?s) ns),
       nextTimer := nextTimer ?s + length ns,
       playbackTimeoutRef := playbackTimeoutRef ?s @ map fst (enumerate (nextTimer ?s) ns)\<rparr>"
    by (rule Cons.IH)
  also have "\<dots> = s\<lparr>timers := timers s @ map (\<lambda>(i, n). (i, noteTrigger bd p (clock s) n))
                                (enumerate (nextTimer s) (n # ns)),
       nextTimer := nextTimer s + length (n # ns),
       playbackTimeoutRef := playbackTimeoutRef s @ map fst (enumerate (nextTimer s) (n # ns))\<rparr>"
    by (simp add: scheduleNote_def del: map_fst_enumerate)
  finally show ?case .
qed

lemma resumePlayback_eq:
  "resumePlayback p sc tp s =
     s\<lparr>playerRef := Some p,
       timers := timers s
                 @ map (\<lambda>(i, n). (i, noteTrigger (beatDuration tp) p (clock s) n))
                       (enumerate (nextTimer s) (notes sc))
                 @ [(nextTimer s + length (notes sc), Interval sc (beatDuration tp))],
       nextTimer := Suc (nextTimer s + length (notes sc)),
       playbackTimeoutRef := playbackTimeoutRef s @ [nextTimer s ..< nextTimer s + length (notes sc)]\<rparr>"
  by (simp add: resumePlayback_def fold_scheduleNote Let_def)

text \<open>What the resumed call does to the state, all at once.\<close>

lemma instrumentLoaded_eq:
  assumes "map_of (loading s) p = Some (sc, tp)"
  shows "instrumentLoaded p s =
     s\<lparr>loading := filter (\<lambda>e. fst e \<noteq> p) (loading s),
       playerRef := Some p,
       timers := timers s
                 @ map (\<lambda>(i, n). (i, noteTrigger (beatDuration tp) p (clock s) n))
                       (enumerate (nextTimer s) (notes sc))
                 @ [(nextTimer s + length (notes sc), Interval sc (beatDuration tp))],
       nextTimer := Suc (nextTimer s + length (notes sc)),
       playbackTimeoutRef := playbackTimeoutRef s @ [nextTimer s ..< nextTimer s + length (notes sc)]\<rparr>"
  using assms by (simp add: instrumentLoaded_def resumePlayback_eq)

lemma new_timers:
  assumes "map_of (loading s) p = Some (sc, tp)"
  shows "drop (length (timers s)) (timers (instrumentLoaded p s)) =
           map (\<lambda>(i, n). (i, noteTrigger (beatDuration tp) p (clock s) n))
               (enumerate (nextTimer s) (notes sc))
           @ [(nextTimer s + length (notes sc), Interval sc (beatDuration tp))]"
  by (simp add: instrumentLoaded_eq [OF assms])


text \<open>The progress callback of a playing session on a score with notes.\<close>

lemma progressTick_live:
  assumes "isPlayingRef s" and "notes sc \<noteq> []"
  shows "progressTick i sc bd s =
           (if jgt (jdiv (jsub (num (clock s)) (startTimeRef s)) bd)
                   (jadd (jadd (time (last (notes sc))) (duration (last (notes sc)))) (num 1))
            then clearTimer i (stopPlayback (s\<lparr>currentTime := jdiv (jsub (num (clock s)) (startTimeRef s)) bd\<rparr>))
            else s\<lparr>currentTime := jdiv (jsub (num (clock s)) (startTimeRef s)) bd\<rparr>)"
  using assms by (cases "notes sc") (simp_all add: progressTick_def Let_def del: last.simps)

lemma map_of_cleared:
  "P i \<Longrightarrow> map_of (filter (\<lambda>e. \<not> P (fst e)) xs) i = None"
  by (induction xs) auto

text \<open>The equations that evaluate a run on concrete events.\<close>

lemmas run_defs = initial_def handleFileChange_def processFile_def jor_def num_def
  playButton_def startPlayback_def stopPlayback_eq instrumentLoaded_def instrumentFailed_def
  resumePlayback_eq beatDuration_def fire_def trigger_def progressTick_def clearTimer_def
  noteTrigger_def enumerate_eq_zip jsub_def Let_def

section \<open>The tempo mapping\<close>







section \<open>Tempo adopted from a transcription\<close>



section \<open>Scheduling the triggers\<close>

text \<open>
  When the instrument load of a suspended \<^verbatim>\<open>startPlayback\<close> call resolves, the call arms
  exactly one trigger for every note of its score, in the order of the notes and after the
  entries already pending, followed by the progress interval. Each trigger is armed at that
  instant, with the delay \<open>startBeat * (60 / tempo) * 1000\<close> milliseconds for the tempo the
  call was made with.
\<close>

lemma triggers_armed_at_load:
  assumes "map_of (loading s) p = Some (sc, tp)"
  shows "timers (instrumentLoaded p s) =
           timers s
           @ map (\<lambda>(i, n). (i, Timeout (jmul (jmul (time n) (jdiv (num 60) tp)) (num 1000))
                                        (clock s) n (jdiv (num 60) tp) p))
                 (enumerate (nextTimer s) (notes sc))
           @ [(nextTimer s + length (notes sc), Interval sc (jdiv (num 60) tp))]"
  by (simp add: instrumentLoaded_eq [OF assms] noteTrigger_def beatDuration_def)

text \<open>
  Claim C1. Every note should get exactly one trigger, dispatched at session start plus
  \<open>startBeat * (60 / tempo)\<close> seconds: 0, 0 and 0.5 seconds after session start for the
  example at 120 bpm. The program arms one trigger per note with these delays (0, 0 and
  500 milliseconds), but it reads the session start from the clock before it waits for the
  instrument and arms the triggers after the wait, so the delays count from the end of the
  load. With a load of two seconds the session start is 0 and the triggers are due at 2, 2
  and 2.5 seconds, not at 0, 0 and 0.5. The progress tracker counts from the session start:
  on its first tick, 50 milliseconds after the load, it samples 4.1 beats, past the end of
  the score, and tears the session down, so the trigger of G4 is cancelled before it is due
  and G4 is never played.
\<close>

theorem triggers_due_late:
  "startTimeRef (run initial (opened chord @ [Start, Advance 2000, Loaded 0])) = num 0
   \<and> map (\<lambda>e. (pitch (tnote (snd e)), delay (snd e), armedAt (snd e)))
       (take 3 (timers (run initial (opened chord @ [Start, Advance 2000, Loaded 0]))))
     = [(''C4'', num 0, 2), (''E4'', num 0, 2), (''G4'', num 500, 2)]
   \<and> map (\<lambda>e. dispatchInstant (snd e))
       (take 3 (timers (run initial (opened chord @ [Start, Advance 2000, Loaded 0]))))
     = [num 2, num 2, num (5 / 2)]
   \<and> map (\<lambda>n. jadd (startTimeRef (run initial (opened chord @ [Start, Advance 2000, Loaded 0])))
                    (jmul (time n) (jdiv (num 60) (num 120))))
         (notes chord)
     = [num 0, num 0, num (1 / 2)]
   \<and> jdiv (jsub (num (clock (run initial (opened chord @
                     [Start, Advance 2000, Loaded 0, Fire 0, Fire 1, Advance 50]))))
                 (startTimeRef (run initial (opened chord @
                     [Start, Advance 2000, Loaded 0, Fire 0, Fire 1, Advance 50]))))
           (jdiv (num 60) (num 120)) = num (41 / 10)
   \<and> timers (run initial (opened chord @
         [Start, Advance 2000, Loaded 0, Fire 0, Fire 1, Advance 50, Fire 3])) = []
   \<and> rendered (run initial (opened chord @
         [Start, Advance 2000, Loaded 0, Fire 0, Fire 1, Advance 50, Fire 3, Advance 450, Fire 2]))
     = [Play 0 ''C4'' (num 2) (num (1 / 2)), Play 0 ''E4'' (num 2) (num (1 / 2)), StopAll 0]"
  by (simp add: run_defs opened_def chord_def mkNote_def dispatchInstant_def)




section \<open>One tempo for a session\<close>

lemma startPlayback_captures:
  "score s = Some sc \<Longrightarrow> last (loading (startPlayback s)) = (nextPlayer s, sc, tempo s)"
  by (simp add: startPlayback_def)

lemma step_tempo:
  assumes "tempoFree e"
  shows "step (s\<lparr>tempo := v\<rparr>) e = (step s e)\<lparr>tempo := v\<rparr>"
proof (cases e)
  case (FileChosen sel out)
  then show ?thesis
    by (simp add: handleFileChange_def Let_def split: option.splits sum.splits prod.splits)
next
  case Stop
  then show ?thesis by (simp add: stopPlayback_eq split: option.splits)
next
  case (Loaded p)
  then show ?thesis
    by (simp add: instrumentLoaded_def resumePlayback_eq split: option.splits prod.splits)
next
  case (LoadFailed p)
  then show ?thesis
    by (simp add: instrumentFailed_def stopPlayback_eq split: option.splits prod.splits)
next
  case (Fire i)
  then show ?thesis
    by (simp add: fire_def trigger_def progressTick_def clearTimer_def stopPlayback_eq Let_def
        split: option.splits timer.splits list.splits)
next
  case (Advance ms)
  then show ?thesis by simp
qed (use assms in simp_all)

lemma run_tempo:
  "list_all tempoFree es \<Longrightarrow> run (s\<lparr>tempo := v\<rparr>) es = (run s es)\<lparr>tempo := v\<rparr>"
  by (induction es arbitrary: s) (simp_all add: step_tempo)

text \<open>
  Claim C8. One tempo is fixed when \<^verbatim>\<open>startPlayback\<close> is called and the session never sees
  another. The call suspends with the tempo of that moment; every trigger and the interval
  it arms carry the one beat duration \<open>60 / tempo\<close> made from it, and every delay is made
  from it; a trigger's callback takes the note duration from the beat duration it carries,
  and the interval's callback converts elapsed seconds to beats with the one it carries.
  So moving the tempo slider changes nothing in what follows, whatever follows short of a
  new start: the run after the slider moved is the run without the move, but for the
  \<^verbatim>\<open>tempo\<close> state itself.
\<close>

theorem tempo_fixed_for_session:
  "(list_all tempoFree es \<longrightarrow> run (step s (TempoSlider v)) es = (run s es)\<lparr>tempo := v\<rparr>)
   \<and> (score s = Some sc \<longrightarrow> last (loading (startPlayback s)) = (nextPlayer s, sc, tempo s))
   \<and> (map_of (loading s) p = Some (sc, tp) \<longrightarrow>
        list_all (\<lambda>e. case snd e of
                        Timeout d a n bd pl \<Rightarrow>
                          bd = beatDuration tp \<and> d = jmul (jmul (time n) (beatDuration tp)) (num 1000)
                      | Interval sc' bd \<Rightarrow> bd = beatDuration tp)
                 (drop (length (timers s)) (timers (instrumentLoaded p s))))
   \<and> (map_of (timers s) i = Some (Timeout d a n bd pl) \<and> isPlayingRef s \<longrightarrow>
        rendered (fire i s) = rendered s @ [Play pl (pitch n) (num (clock s)) (jmul (duration n) bd)])
   \<and> (map_of (timers s) i = Some (Interval sc bd) \<and> isPlayingRef s \<and> notes sc \<noteq> []
        \<and> \<not> jgt (jdiv (jsub (num (clock s)) (startTimeRef s)) bd)
                 (jadd (jadd (time (last (notes sc))) (duration (last (notes sc)))) (num 1)) \<longrightarrow>
        currentTime (fire i s) = jdiv (jsub (num (clock s)) (startTimeRef s)) bd)"
proof (intro conjI impI)
  assume "list_all tempoFree es"
  then show "run (step s (TempoSlider v)) es = (run s es)\<lparr>tempo := v\<rparr>"
    by (simp add: run_tempo)
next
  assume "score s = Some sc"
  then show "last (loading (startPlayback s)) = (nextPlayer s, sc, tempo s)"
    by (rule startPlayback_captures)
next
  assume l: "map_of (loading s) p = Some (sc, tp)"
  show "list_all (\<lambda>e. case snd e of
                        Timeout d a n bd pl \<Rightarrow>
                          bd = beatDuration tp \<and> d = jmul (jmul (time n) (beatDuration tp)) (num 1000)
                      | Interval sc' bd \<Rightarrow> bd = beatDuration tp)
                 (drop (length (timers s)) (timers (instrumentLoaded p s)))"
    unfolding new_timers [OF l]
    by (auto simp: list_all_iff noteTrigger_def)
next
  assume "map_of (timers s) i = Some (Timeout d a n bd pl) \<and> isPlayingRef s"
  then show "rendered (fire i s) = rendered s @ [Play pl (pitch n) (num (clock s)) (jmul (duration n) bd)]"
    by (simp add: fire_def trigger_def clearTimer_def)
next
  assume "map_of (timers s) i = Some (Interval sc bd) \<and> isPlayingRef s \<and> notes sc \<noteq> []
        \<and> \<not> jgt (jdiv (jsub (num (clock s)) (startTimeRef s)) bd)
                 (jadd (jadd (time (last (notes sc))) (duration (last (notes sc)))) (num 1))"
  then show "currentTime (fire i s) = jdiv (jsub (num (clock s)) (startTimeRef s)) bd"
    by (simp add: fire_def progressTick_live)
qed

text \<open>
  The example at 120 bpm, with the slider moved to 60 right after the start: the C4 still
  lasts half a second and the position still advances two beats a second.
\<close>

theorem tempo_fixed_for_session_witness:
  "list_all tempoFree [Advance 100, Loaded 0, Fire 0, Advance 500, Fire 3]
   \<and> rendered (run (step (run initial (opened chord @ [Start])) (TempoSlider (num 60)))
                   [Advance 100, Loaded 0, Fire 0, Advance 500, Fire 3])
       = [Play 0 ''C4'' (num (1 / 10)) (num (1 / 2))]
   \<and> currentTime (run (step (run initial (opened chord @ [Start])) (TempoSlider (num 60)))
                      [Advance 100, Loaded 0, Fire 0, Advance 500, Fire 3])
       = num (6 / 5)
   \<and> score (run initial (opened chord)) = Some chord
   \<and> last (loading (startPlayback (run initial (opened chord)))) = (0, chord, num 120)
   \<and> map_of (loading (run initial (opened chord @ [Start, TempoSlider (num 60)]))) 0
       = Some (chord, num 120)
   \<and> list_all (\<lambda>e. case snd e of
                     Timeout d a n bd pl \<Rightarrow>
                       bd = beatDuration (num 120)
                       \<and> d = jmul (jmul (time n) (beatDuration (num 120))) (num 1000)
                   | Interval sc' bd \<Rightarrow> bd = beatDuration (num 120))
        (timers (instrumentLoaded 0 (run initial (opened chord @ [Start, TempoSlider (num 60)]))))
   \<and> map_of (timers (run initial (opened chord @ [Start, TempoSlider (num 60), Loaded 0]))) 2
       = Some (Timeout (num 500) 0 (mkNote ''G4'' (num 1) (num 1)) (num (1 / 2)) 0)
   \<and> isPlayingRef (run initial (opened chord @ [Start, TempoSlider (num 60), Loaded 0]))
   \<and> rendered (fire 2 (run initial (opened chord @ [Start, TempoSlider (num 60), Loaded 0])))
       = [Play 0 ''G4'' (num 0) (num (1 / 2))]
   \<and> map_of (timers (run initial (opened chord @ [Start, TempoSlider (num 60), Loaded 0, Advance 500]))) 3
       = Some (Interval chord (num (1 / 2)))
   \<and> currentTime (fire 3 (run initial (opened chord @ [Start, TempoSlider (num 60), Loaded 0, Advance 500])))
       = num 1"
proof -
  let ?es = "[Advance 100, Loaded 0, Fire 0, Advance 500, Fire 3]"
  let ?s = "run initial (opened chord @ [Start])"
  let ?o = "run initial (opened chord)"
  let ?t = "run initial (opened chord @ [Start, TempoSlider (num 60)])"
  let ?u = "run initial (opened chord @ [Start, TempoSlider (num 60), Loaded 0])"
  let ?w = "run initial (opened chord @ [Start, TempoSlider (num 60), Loaded 0, Advance 500])"
  note fixed = tempo_fixed_for_session
  have f: "list_all tempoFree ?es" by simp
  have r: "rendered (run ?s ?es) = [Play 0 ''C4'' (num (1 / 10)) (num (1 / 2))]"
    and c: "currentTime (run ?s ?es) = num (6 / 5)"
    by (simp_all add: run_defs opened_def chord_def mkNote_def)
  from fixed [where es = ?es and s = ?s and v = "num 60"] f
  have "run (step ?s (TempoSlider (num 60))) ?es = (run ?s ?es)\<lparr>tempo := num 60\<rparr>" by blast
  with r c have one: "rendered (run (step ?s (TempoSlider (num 60))) ?es)
                        = [Play 0 ''C4'' (num (1 / 10)) (num (1 / 2))]"
    "currentTime (run (step ?s (TempoSlider (num 60))) ?es) = num (6 / 5)"
    by simp_all
  have o: "score ?o = Some chord" and o': "nextPlayer ?o = 0" "tempo ?o = num 120"
    by (simp_all add: run_defs opened_def chord_def)
  from fixed [where s = ?o and sc = chord] o
  have "last (loading (startPlayback ?o)) = (nextPlayer ?o, chord, tempo ?o)" by blast
  with o' have two: "last (loading (startPlayback ?o)) = (0, chord, num 120)" by simp
  have l: "map_of (loading ?t) 0 = Some (chord, num 120)" and t: "timers ?t = []"
    by (simp_all add: run_defs opened_def chord_def)
  from fixed [where s = ?t and sc = chord and p = 0 and tp = "num 120"] l t
  have three: "list_all (\<lambda>e. case snd e of
                     Timeout d a n bd pl \<Rightarrow>
                       bd = beatDuration (num 120)
                       \<and> d = jmul (jmul (time n) (beatDuration (num 120))) (num 1000)
                   | Interval sc' bd \<Rightarrow> bd = beatDuration (num 120))
        (timers (instrumentLoaded 0 ?t))"
    by simp
  have u: "map_of (timers ?u) 2 = Some (Timeout (num 500) 0 (mkNote ''G4'' (num 1) (num 1)) (num (1 / 2)) 0)"
    and u': "isPlayingRef ?u" and u'': "rendered ?u = []" "clock ?u = 0"
    by (simp_all add: run_defs opened_def chord_def mkNote_def)
  from fixed [where s = ?u and i = 2 and d = "num 500" and a = 0
      and n = "mkNote ''G4'' (num 1) (num 1)" and bd = "num (1 / 2)" and pl = 0]
    u u'
  have "rendered (fire 2 ?u) = rendered ?u @ [Play 0 (pitch (mkNote ''G4'' (num 1) (num 1))) (num (clock ?u))
          (jmul (duration (mkNote ''G4'' (num 1) (num 1))) (num (1 / 2)))]"
    by blast
  with u'' have four: "rendered (fire 2 ?u) = [Play 0 ''G4'' (num 0) (num (1 / 2))]"
    by (simp add: mkNote_def num_def)
  have w: "map_of (timers ?w) 3 = Some (Interval chord (num (1 / 2)))"
    and w': "isPlayingRef ?w" and w'': "clock ?w = 1 / 2" "startTimeRef ?w = num 0"
    by (simp_all add: run_defs opened_def chord_def mkNote_def)
  have n: "notes chord \<noteq> []" and n': "last (notes chord) = mkNote ''G4'' (num 1) (num 1)"
    by (simp_all add: chord_def)
  have g: "\<not> jgt (jdiv (jsub (num (clock ?w)) (startTimeRef ?w)) (num (1 / 2)))
                 (jadd (jadd (time (last (notes chord))) (duration (last (notes chord)))) (num 1))"
    and v: "jdiv (jsub (num (clock ?w)) (startTimeRef ?w)) (num (1 / 2)) = num 1"
    unfolding w'' n' by (simp_all add: mkNote_def num_def jsub_def)
  from fixed [where s = ?w and i = 3 and sc = chord and bd = "num (1 / 2)"]
    w w' n g
  have "currentTime (fire 3 ?w) = jdiv (jsub (num (clock ?w)) (startTimeRef ?w)) (num (1 / 2))"
    by blast
  with v have five: "currentTime (fire 3 ?w) = num 1" by simp
  from f one o two l three u u' four w five show ?thesis by blast
qed

section \<open>Stopping\<close>

text \<open>
  While nothing starts a session again, a stopped component stays silent: whatever fires,
  loads or fails, the renderer is never asked to play.
\<close>

lemma stopped_step:
  assumes "\<not> isPlayingRef s" and "\<not> isPlaying s" and "\<not> startsSession e"
  shows "\<not> isPlayingRef (step s e) \<and> \<not> isPlaying (step s e)
         \<and> filter isPlay (rendered (step s e)) = filter isPlay (rendered s)"
proof (cases e)
  case (FileChosen sel out)
  with assms show ?thesis
    by (simp add: handleFileChange_def Let_def split: option.splits sum.splits prod.splits)
next
  case (Transcribed out)
  with assms show ?thesis
    by (simp add: processFile_def Let_def split: sum.splits)
next
  case Stop
  with assms show ?thesis by (simp add: stopPlayback_eq split: option.splits)
next
  case (Loaded p)
  with assms show ?thesis
    by (simp add: instrumentLoaded_def resumePlayback_eq split: option.splits prod.splits)
next
  case (LoadFailed p)
  with assms show ?thesis
    by (simp add: instrumentFailed_def stopPlayback_eq split: option.splits prod.splits)
next
  case (Fire i)
  with assms show ?thesis
    by (simp add: fire_def trigger_def progressTick_def clearTimer_def
        split: option.splits timer.splits)
qed (use assms in simp_all)

lemma silent_while_stopped:
  assumes "list_all (\<lambda>e. \<not> startsSession e) es"
  shows "filter isPlay (rendered (run (stopPlayback s) es)) = filter isPlay (rendered s)"
proof -
  have "\<not> isPlayingRef t \<Longrightarrow> \<not> isPlaying t \<Longrightarrow>
          filter isPlay (rendered (run t es)) = filter isPlay (rendered t)" for t
    using assms
  proof (induction es arbitrary: t)
    case Nil
    show ?case by simp
  next
    case (Cons e es)
    from Cons.prems have "\<not> startsSession e" by simp
    from stopped_step [OF Cons.prems(1,2) this] Cons.prems(3) Cons.IH [of "step t e"]
    show ?case by simp
  qed
  from this [of "stopPlayback s"] show ?thesis
    by (simp add: stopPlayback_eq split: option.splits)
qed

text \<open>
  Claim C2. After \<^verbatim>\<open>stopPlayback\<close> has returned no renderer invocation for the stopped
  session should ever occur. The program does not keep that promise: the flag its triggers
  test is shared by all sessions. Here the play button is clicked three times while the
  first instrument load is still under way (start, stop, start). The first call then
  resumes, arms its triggers, and its first trigger finds the flag set again by the third
  click: the renderer plays C4 on player 0, the player of the session that was stopped,
  while the load of the second session (player 1) is still pending.
\<close>

theorem stopped_session_plays:
  "\<not> isPlayingRef (run initial (opened chord @ [PlayButton, Advance 100, PlayButton]))
   \<and> rendered (run initial (opened chord @ [PlayButton, Advance 100, PlayButton])) = []
   \<and> rendered (run initial (opened chord @
        [PlayButton, Advance 100, PlayButton, Advance 100, PlayButton, Advance 300, Loaded 0, Fire 0]))
       = [Play 0 ''C4'' (num (1 / 2)) (num (1 / 2))]
   \<and> map fst (loading (run initial (opened chord @
        [PlayButton, Advance 100, PlayButton, Advance 100, PlayButton, Advance 300, Loaded 0, Fire 0])))
       = [1]"
  by (simp add: run_defs opened_def chord_def mkNote_def)

text \<open>
  Claim C3. At most one session should ever be active: a new start should first tear the
  running session down, so that only the triggers of the latest call remain. The program
  has no such step. \<^verbatim>\<open>startPlayback\<close> contains no stop sequence; the play button calls it
  only while \<^verbatim>\<open>isPlaying\<close> is clear, so a session is superseded through a stop, and a
  stop cancels only what is already armed. A call that is still waiting for its instrument
  arms its triggers afterwards, under the flag that the next start has set again. Three
  clicks (start, stop, start) during the first load leave the state playing with the
  triggers and the intervals of both calls pending, and C4 is played once on each player. When a new transcription arrives between the second and the third click, the
  renderer plays the C4 of the superseded score, at the superseded tempo, next to the A4
  of the new score.
\<close>

theorem two_sessions_active:
  "isPlaying (run initial (opened chord @
       [PlayButton, Advance 100, PlayButton, Advance 100, PlayButton, Advance 300,
        Loaded 0, Loaded 1]))
   \<and> map (\<lambda>e. case snd e of Timeout d a n bd pl \<Rightarrow> Some (pitch n, pl)
                              | Interval sc bd \<Rightarrow> None)
       (timers (run initial (opened chord @
         [PlayButton, Advance 100, PlayButton, Advance 100, PlayButton, Advance 300,
          Loaded 0, Loaded 1])))
     = [Some (''C4'', 0), Some (''E4'', 0), Some (''G4'', 0), None,
        Some (''C4'', 1), Some (''E4'', 1), Some (''G4'', 1), None]
   \<and> rendered (run initial (opened chord @
       [PlayButton, Advance 100, PlayButton, Advance 100, PlayButton, Advance 300,
        Loaded 0, Loaded 1, Fire 0, Fire 4]))
     = [Play 0 ''C4'' (num (1 / 2)) (num (1 / 2)), Play 1 ''C4'' (num (1 / 2)) (num (1 / 2))]
   \<and> rendered (run initial (opened chord @
       [PlayButton, Advance 100, PlayButton, Transcribed (Inr solo), Advance 100, PlayButton,
        Advance 300, Loaded 0, Loaded 1, Fire 0, Fire 4]))
     = [Play 0 ''C4'' (num (1 / 2)) (num (1 / 2)), Play 1 ''A4'' (num (1 / 2)) (num 1)]"
  by (simp add: run_defs opened_def chord_def solo_def mkNote_def)

section \<open>Natural completion\<close>

text \<open>
  A progress tick of a playing session, on a score with notes, compares the elapsed beats
  with start plus duration of the last note of the list, plus one. When they exceed it, the
  teardown of \<^verbatim>\<open>stopPlayback\<close> runs: both playing flags are cleared, the position is reset
  to zero, the recorded triggers are cancelled and the current player is stopped; the
  interval is cleared too, so it never ticks again. On every other tick the position
  becomes the elapsed beats and nothing else changes.
\<close>

lemma tick_completion:
  assumes "map_of (timers s) i = Some (Interval sc bd)" and "isPlayingRef s" and "notes sc \<noteq> []"
  shows "(jgt (jdiv (jsub (num (clock s)) (startTimeRef s)) bd)
              (jadd (jadd (time (last (notes sc))) (duration (last (notes sc)))) (num 1)) \<longrightarrow>
            \<not> isPlaying (fire i s) \<and> \<not> isPlayingRef (fire i s)
            \<and> currentTime (fire i s) = num 0
            \<and> playbackTimeoutRef (fire i s) = []
            \<and> rendered (fire i s)
                = (case playerRef s of None \<Rightarrow> rendered s | Some p \<Rightarrow> rendered s @ [StopAll p])
            \<and> (\<forall>j \<in> set (i # playbackTimeoutRef s). map_of (timers (fire i s)) j = None)
            \<and> fire i (fire i s) = fire i s)
       \<and> (\<not> jgt (jdiv (jsub (num (clock s)) (startTimeRef s)) bd)
                (jadd (jadd (time (last (notes sc))) (duration (last (notes sc)))) (num 1)) \<longrightarrow>
            fire i s = s\<lparr>currentTime := jdiv (jsub (num (clock s)) (startTimeRef s)) bd\<rparr>)"
proof (intro conjI impI)
  let ?elapsed = "jdiv (jsub (num (clock s)) (startTimeRef s)) bd"
  let ?limit = "jadd (jadd (time (last (notes sc))) (duration (last (notes sc)))) (num 1)"
  {
    assume "\<not> jgt ?elapsed ?limit"
    with assms show "fire i s = s\<lparr>currentTime := ?elapsed\<rparr>"
      by (simp add: fire_def progressTick_live)
  }
  assume "jgt ?elapsed ?limit"
  with assms have f: "fire i s = clearTimer i (stopPlayback (s\<lparr>currentTime := ?elapsed\<rparr>))"
    by (simp add: fire_def progressTick_live)
  have t: "timers (fire i s) =
             filter (\<lambda>e. \<not> (fst e = i \<or> fst e \<in> set (playbackTimeoutRef s))) (timers s)"
    by (simp add: f clearTimer_def stopPlayback_eq conj_commute)
  show "\<not> isPlaying (fire i s)" "\<not> isPlayingRef (fire i s)" "currentTime (fire i s) = num 0"
    "playbackTimeoutRef (fire i s) = []"
    by (simp_all add: f clearTimer_def stopPlayback_eq)
  show "rendered (fire i s)
          = (case playerRef s of None \<Rightarrow> rendered s | Some p \<Rightarrow> rendered s @ [StopAll p])"
    by (simp add: f clearTimer_def stopPlayback_eq split: option.splits)
  show gone: "\<forall>j \<in> set (i # playbackTimeoutRef s). map_of (timers (fire i s)) j = None"
    unfolding t by (intro ballI map_of_cleared) auto
  then have "map_of (timers (fire i s)) i = None" by simp
  then show "fire i (fire i s) = fire i s"
    by (simp add: fire_def [of i "fire i s"])
qed

text \<open>
  Claim C4. Completion should be signaled when the elapsed beats first exceed the end beat
  plus one, the end beat being the maximum over all notes of start plus duration. The
  program takes the end of the last note of the list for the end beat, which is the
  maximum only when the last note ends latest. Here a C4 held from beat 0 to beat 10 lies
  under an E4 from beat 1 to beat 2, at 60 bpm. The renderer is asked to play C4 for ten
  seconds; the tick at 3.05 seconds samples 3.05 beats, which does not exceed the end beat
  plus one (11), and yet ends the session and stops the player, about three seconds into
  the held note's ten.
\<close>

theorem completion_cuts_held_note:
  "isPlaying (run initial (opened overlap @
       [PlayButton, Loaded 0, Fire 0, Advance 1000, Fire 1, Advance 2050]))
   \<and> rendered (run initial (opened overlap @
       [PlayButton, Loaded 0, Fire 0, Advance 1000, Fire 1, Advance 2050]))
       = [Play 0 ''C4'' (num 0) (num 10), Play 0 ''E4'' (num 1) (num 1)]
   \<and> jdiv (jsub (num (clock (run initial (opened overlap @
                     [PlayButton, Loaded 0, Fire 0, Advance 1000, Fire 1, Advance 2050]))))
                 (startTimeRef (run initial (opened overlap @
                     [PlayButton, Loaded 0, Fire 0, Advance 1000, Fire 1, Advance 2050]))))
           (jdiv (num 60) (num 60)) = num (61 / 20)
   \<and> endBeat_spec (notes overlap) = num 10
   \<and> \<not> jgt (num (61 / 20)) (jadd (endBeat_spec (notes overlap)) (num 1))
   \<and> \<not> isPlaying (run initial (opened overlap @
       [PlayButton, Loaded 0, Fire 0, Advance 1000, Fire 1, Advance 2050, Fire 2]))
   \<and> rendered (run initial (opened overlap @
       [PlayButton, Loaded 0, Fire 0, Advance 1000, Fire 1, Advance 2050, Fire 2]))
       = [Play 0 ''C4'' (num 0) (num 10), Play 0 ''E4'' (num 1) (num 1), StopAll 0]"
  by (simp add: run_defs opened_def overlap_def mkNote_def endBeat_spec_def jmax_def)

text \<open>
  Claim C5. A score without notes should give a session that schedules nothing, samples
  nothing and completes at once, without error. The program arms no trigger, but it does
  arm the progress interval and stays playing; every tick of the interval samples the
  position and then throws a \<open>TypeError\<close> when it reads the last note of the empty list,
  before it could signal completion. After two ticks, two errors have escaped, the state
  is still playing and the interval is still armed.
\<close>

theorem empty_score_throws:
  "isPlaying (run initial (opened silence @ [Start, Loaded 0]))
   \<and> timers (run initial (opened silence @ [Start, Loaded 0])) = [(0, Interval silence (num (1 / 2)))]
   \<and> uncaught (run initial (opened silence @ [Start, Loaded 0, Advance 50, Fire 0, Advance 50, Fire 0]))
     = [TypeError, TypeError]
   \<and> currentTime (run initial (opened silence @ [Start, Loaded 0, Advance 50, Fire 0, Advance 50, Fire 0]))
     = num (1 / 5)
   \<and> isPlaying (run initial (opened silence @ [Start, Loaded 0, Advance 50, Fire 0, Advance 50, Fire 0]))
   \<and> timers (run initial (opened silence @ [Start, Loaded 0, Advance 50, Fire 0, Advance 50, Fire 0]))
     = [(0, Interval silence (num (1 / 2)))]"
  by (simp add: run_defs opened_def silence_def)

end
